theory Spec2Isabelle
  imports Main
begin

section \<open>Data model\<close>

text \<open>
  The application keeps, for every user, a subtree of documents in a hosted document
  store: contracts, daily logs, violation records, journal entries and temptation
  records.  Calendar dates are the strings \<^verbatim>\<open>YYYY-MM-DD\<close> that
  \<^verbatim>\<open>new Date().toISOString().split('T')[0]\<close> produces; they are modelled by the
  number of the UTC day (days since 1970-01-01), on which equality and order agree with
  equality and order of the strings.  Instants are milliseconds since the epoch.
  Counters are natural numbers: the numbers of JavaScript are exact far beyond any count
  of days or weeks.  The identifiers of documents, which the store generates, are
  natural numbers as well.
\<close>

type_synonym doc_id = nat
type_synonym uid = string
type_synonym day = int
type_synonym millis = int

definition msPerDay :: int where
  "msPerDay = 1000 * 60 * 60 * 24"

definition isoDate :: "millis \<Rightarrow> day" where
  \<comment> \<open>\<^verbatim>\<open>new Date(now).toISOString().split('T')[0]\<close>\<close>
  "isoDate now = now div msPerDay"

datatype contract_type = DO | AVOID
datatype contract_status = Active | Paused | Archived
datatype contract_outcome = Completed | Breached
datatype log_status = Kept | Broken | Exception
datatype decision = Recommit | Pause | Retire

record frequency_goal =
  freq_type :: string
  timesPerWeek :: "nat option"

record weekly_progress =
  weekStart :: "day option"
  completedCount :: "nat option"
  lastCheckInDate :: "day option"

text \<open>
  The form data of a new contract (the object \<^verbatim>\<open>formData\<close> of \<^verbatim>\<open>CreateContract\<close>); an
  empty date string is \<open>None\<close>.
\<close>

record contract_data =
  title :: string
  pillar :: string
  ctype :: contract_type
  behavior :: string
  startDate :: "day option"
  endDate :: "day option"
  importance :: nat
  exceptions :: "string list"
  penalty :: string
  witnessLinked :: bool

text \<open>
  A contract document: the form data, the fields \<^verbatim>\<open>handleCreateContract\<close> adds, and the
  optional fields that later operations write or read (\<open>None\<close> is an absent or null
  field).  \<open>cid\<close> is the identifier of the document.  The fields \<^verbatim>\<open>userId\<close> and
  \<^verbatim>\<open>history\<close>, which no operation reads, are left out.
\<close>

record contract = contract_data +
  cid :: doc_id
  status :: contract_status
  streak :: "nat option"
  createdAt :: "millis option"
  lastCheckIn :: "millis option"
  frequency :: "frequency_goal option"
  weeklyProgress :: "weekly_progress option"
  autoKeep :: bool
  outcome :: "contract_outcome option"
  failureReason :: "string option"
  archivedAt :: "millis option"
  resistedCount :: "nat option"
  lastTemptation :: "millis option"

record daily_log =
  log_contractId :: doc_id
  log_date :: day
  log_status :: log_status
  log_notes :: "string option"
  log_source :: "string option"
  log_timestamp :: millis

record violation_data =
  reason :: string
  story :: string
  decision :: decision

record violation = violation_data +
  v_contractId :: doc_id
  v_contractTitle :: string
  v_timestamp :: millis

record journal_entry =
  j_contractId :: doc_id
  j_text :: string
  j_createdAt :: millis
  j_type :: string

record temptation =
  t_id :: doc_id
  t_contractId :: doc_id
  t_createdAt :: millis
  t_context :: "string option"
  t_aiResponse :: string
  t_outcome :: string
  t_resolvedAt :: "millis option"

text \<open>
  The document \<^verbatim>\<open>users/{uid}\<close> itself holds the push token of the user (and the
  briefings, which are left out).  The client creates it only when the user enables
  notifications; the contracts and logs of a user are written below its path whether or
  not the document exists.
\<close>

record user_doc =
  fcmToken :: "string option"

text \<open>
  The subtree \<^verbatim>\<open>users/{uid}\<close> of one user: the document of the user, if it exists, and
  the collections below it.
\<close>

record user_data =
  userDoc :: "user_doc option"
  contracts :: "contract list"
  logs :: "daily_log list"
  violations :: "violation list"
  journal :: "journal_entry list"
  temptations :: "temptation list"

definition empty_user :: user_data where
  "empty_user = \<lparr>userDoc = None, contracts = [], logs = [], violations = [], journal = [],
     temptations = []\<rparr>"

subsection \<open>JavaScript's \<^verbatim>\<open>||\<close> on optional numbers and on strings\<close>

fun js_or_num :: "nat option \<Rightarrow> nat \<Rightarrow> nat" where
  \<comment> \<open>\<^verbatim>\<open>x || d\<close>: an absent field and the number 0 are both falsy\<close>
  "js_or_num None d = d"
| "js_or_num (Some n) d = (if n = 0 then d else n)"

definition js_or_str :: "string \<Rightarrow> string \<Rightarrow> string" where
  \<comment> \<open>\<^verbatim>\<open>s || d\<close>: the empty string is falsy\<close>
  "js_or_str s d = (if s = [] then d else s)"

section \<open>Atomic write batches\<close>

text \<open>
  \<^verbatim>\<open>batch.update(ref, {...})\<close> overwrites the listed fields of an existing document
  and leaves the others; the record below lists, for each field some operation updates,
  the new value if the update names the field.
\<close>

record contract_update =
  u_streak :: "nat option"
  u_lastCheckIn :: "millis option"
  u_status :: "contract_status option"
  u_outcome :: "contract_outcome option"
  u_failureReason :: "string option"
  u_archivedAt :: "millis option"
  u_weeklyProgress :: "weekly_progress option"

definition no_update :: contract_update where
  "no_update = \<lparr>u_streak = None, u_lastCheckIn = None, u_status = None, u_outcome = None,
     u_failureReason = None, u_archivedAt = None, u_weeklyProgress = None\<rparr>"

datatype batch_op =
    SetLog daily_log
  | SetViolation violation
  | SetJournal journal_entry
  | UpdateContract doc_id contract_update

fun upd :: "'a option \<Rightarrow> 'a option \<Rightarrow> 'a option" where
  "upd None old = old"
| "upd (Some v) old = Some v"

definition apply_update :: "contract_update \<Rightarrow> contract \<Rightarrow> contract" where
  "apply_update u c = c\<lparr>
     streak := upd (u_streak u) (streak c),
     lastCheckIn := upd (u_lastCheckIn u) (lastCheckIn c),
     status := (case u_status u of None \<Rightarrow> status c | Some s \<Rightarrow> s),
     outcome := upd (u_outcome u) (outcome c),
     failureReason := upd (u_failureReason u) (failureReason c),
     archivedAt := upd (u_archivedAt u) (archivedAt c),
     weeklyProgress := upd (u_weeklyProgress u) (weeklyProgress c)\<rparr>"

definition update_where :: "doc_id \<Rightarrow> (contract \<Rightarrow> contract) \<Rightarrow> contract list \<Rightarrow> contract list" where
  "update_where i f cs = map (\<lambda>c. if cid c = i then f c else c) cs"

definition update_doc :: "doc_id \<Rightarrow> contract_update \<Rightarrow> contract list \<Rightarrow> contract list" where
  "update_doc i u cs = update_where i (apply_update u) cs"

fun apply_write :: "user_data \<Rightarrow> batch_op \<Rightarrow> user_data" where
  "apply_write db (SetLog l) = db\<lparr>logs := logs db @ [l]\<rparr>"
| "apply_write db (SetViolation v) = db\<lparr>violations := violations db @ [v]\<rparr>"
| "apply_write db (SetJournal j) = db\<lparr>journal := journal db @ [j]\<rparr>"
| "apply_write db (UpdateContract i u) = db\<lparr>contracts := update_doc i u (contracts db)\<rparr>"

fun write_ok :: "user_data \<Rightarrow> batch_op \<Rightarrow> bool" where
  \<comment> \<open>an update of a document that does not exist fails, a set with a new identifier never does\<close>
  "write_ok db (UpdateContract i u) = (i \<in> set (map cid (contracts db)))"
| "write_ok db _ = True"

definition commit :: "bool \<Rightarrow> batch_op list \<Rightarrow> user_data \<Rightarrow> user_data option" where
  \<comment> \<open>\<^verbatim>\<open>await batch.commit()\<close>: all writes or none; \<open>ok\<close> says whether the store is
      reachable and accepts the batch, and \<open>None\<close> is the rejected promise\<close>
  "commit ok batch db =
     (if ok \<and> list_all (write_ok db) batch then Some (foldl apply_write db batch) else None)"

section \<open>Client operations\<close>

subsection \<open>Check-in\<close>

definition checkInBatch :: "millis \<Rightarrow> contract \<Rightarrow> doc_id \<Rightarrow> log_status \<Rightarrow> string \<Rightarrow> batch_op list" where
  "checkInBatch now contract contractId st notes =
     (let today = isoDate now;
          newStreak = js_or_num (streak contract) 0;
          newStreak = (if st = Kept then newStreak + 1 else newStreak)
      in [SetLog \<lparr>log_contractId = contractId, log_date = today, log_status = st,
                  log_notes = Some notes, log_source = None, log_timestamp = now\<rparr>,
          UpdateContract contractId (no_update\<lparr>u_lastCheckIn := Some now, u_streak := Some newStreak\<rparr>)])"

definition handleCheckIn ::
  "millis \<Rightarrow> bool \<Rightarrow> uid option \<Rightarrow> contract list \<Rightarrow> doc_id \<Rightarrow> log_status \<Rightarrow> string \<Rightarrow> user_data
     \<Rightarrow> user_data option" where
  \<comment> \<open>\<open>user\<close> and \<open>cs\<close> are the client's state: the signed-in user and its copy of the
      contracts; \<open>db\<close> is that user's subtree in the store.  The result is the subtree
      after the commit, and \<open>None\<close> when nothing was written (an early return, or a
      commit that failed and was caught)\<close>
  "handleCheckIn now ok user cs contractId st notes db =
     (case user of
        None \<Rightarrow> None
      | Some u \<Rightarrow>
          (case find (\<lambda>c. cid c = contractId) cs of
             None \<Rightarrow> None
           | Some contract \<Rightarrow> commit ok (checkInBatch now contract contractId st notes) db))"

subsection \<open>Claim victory\<close>

definition handleCompleteContract ::
  "millis \<Rightarrow> bool \<Rightarrow> uid option \<Rightarrow> contract \<Rightarrow> user_data \<Rightarrow> user_data option" where
  \<comment> \<open>\<^verbatim>\<open>updateDoc\<close> is a batch of one update\<close>
  "handleCompleteContract now ok user contract db =
     (case user of
        None \<Rightarrow> None
      | Some u \<Rightarrow>
          commit ok [UpdateContract (cid contract)
            (no_update\<lparr>u_status := Some Archived, u_outcome := Some Completed,
               u_archivedAt := Some now\<rparr>)] db)"

subsection \<open>Reporting a violation\<close>

definition violationUpdates :: "millis \<Rightarrow> violation_data \<Rightarrow> contract_update" where
  "violationUpdates now violationData =
     (let updates = no_update\<lparr>u_streak := Some 0, u_lastCheckIn := Some now\<rparr>;
          updates = (if decision violationData = Pause
                     then updates\<lparr>u_status := Some Paused\<rparr> else updates);
          updates = (if decision violationData = Retire
                     then updates\<lparr>u_status := Some Archived, u_outcome := Some Breached,
                            u_failureReason := Some (js_or_str (story violationData) (reason violationData)),
                            u_archivedAt := Some now\<rparr>
                     else updates)
      in updates)"

definition violationBatch :: "millis \<Rightarrow> contract \<Rightarrow> violation_data \<Rightarrow> batch_op list" where
  "violationBatch now activeViolationContract violationData =
     (let today = isoDate now
      in [SetViolation \<lparr>reason = reason violationData, story = story violationData,
                         decision = decision violationData,
                         v_contractId = cid activeViolationContract,
                         v_contractTitle = title activeViolationContract,
                         v_timestamp = now\<rparr>,
          SetLog \<lparr>log_contractId = cid activeViolationContract, log_date = today,
                  log_status = Broken, log_notes = Some (story violationData),
                  log_source = None, log_timestamp = now\<rparr>,
          UpdateContract (cid activeViolationContract) (violationUpdates now violationData)])"

definition handleViolation ::
  "millis \<Rightarrow> bool \<Rightarrow> uid option \<Rightarrow> contract option \<Rightarrow> violation_data \<Rightarrow> user_data
     \<Rightarrow> user_data option" where
  "handleViolation now ok user activeViolationContract violationData db =
     (case user of
        None \<Rightarrow> None
      | Some u \<Rightarrow>
          (case activeViolationContract of
             None \<Rightarrow> None
           | Some a \<Rightarrow> commit ok (violationBatch now a violationData) db))"

subsection \<open>Creating a contract\<close>

definition fresh_id :: "contract list \<Rightarrow> doc_id" where
  \<comment> \<open>\<^verbatim>\<open>addDoc\<close> lets the store choose an identifier that no document of the collection
      has; the model takes the successor of the largest one\<close>
  "fresh_id cs = Suc (fold max (map cid cs) 0)"

definition newContract :: "millis \<Rightarrow> doc_id \<Rightarrow> contract_data \<Rightarrow> contract" where
  "newContract now i contractData =
     \<lparr>title = title contractData, pillar = pillar contractData, ctype = ctype contractData,
      behavior = behavior contractData, startDate = startDate contractData,
      endDate = endDate contractData, importance = importance contractData,
      exceptions = exceptions contractData, penalty = penalty contractData,
      witnessLinked = witnessLinked contractData,
      cid = i, status = Active, streak = Some 0, createdAt = Some now, lastCheckIn = None,
      frequency = None, weeklyProgress = None, autoKeep = False, outcome = None,
      failureReason = None, archivedAt = None, resistedCount = None, lastTemptation = None\<rparr>"

definition handleCreateContract ::
  "millis \<Rightarrow> bool \<Rightarrow> uid option \<Rightarrow> contract_data \<Rightarrow> user_data \<Rightarrow> user_data option" where
  "handleCreateContract now ok user contractData db =
     (case user of
        None \<Rightarrow> None
      | Some u \<Rightarrow>
          (if ok
           then Some (db\<lparr>contracts := contracts db @ [newContract now (fresh_id (contracts db)) contractData]\<rparr>)
           else None))"

subsection \<open>Enabling notifications\<close>

definition handleEnableNotifications ::
  "bool \<Rightarrow> string option \<Rightarrow> bool \<Rightarrow> uid option \<Rightarrow> user_data \<Rightarrow> user_data" where
  \<comment> \<open>\<open>granted\<close>: the browser supports notifications and the user grants the permission;
      \<open>token\<close>: the registration token, if any.  \<^verbatim>\<open>setDoc\<close> with \<^verbatim>\<open>merge\<close> creates the
      document of the user or overwrites its token; it is the only write of the client
      that can create that document\<close>
  "handleEnableNotifications granted token ok user db =
     (if granted
      then (case (token, user) of
              (Some t, Some u) \<Rightarrow>
                (if t \<noteq> [] \<and> ok
                 then db\<lparr>userDoc := Some (case userDoc db of
                                              None \<Rightarrow> \<lparr>fcmToken = Some t\<rparr>
                                            | Some d \<Rightarrow> d\<lparr>fcmToken := Some t\<rparr>)\<rparr>
                 else db)
            | _ \<Rightarrow> db)
      else db)"

subsection \<open>The contract card\<close>

text \<open>
  \<^verbatim>\<open>ContractCard\<close> decides which of the three lifecycle actions it renders as buttons.
  \<^verbatim>\<open>new Date(endDateStr)\<close> of a date string is the UTC midnight that starts the day.
\<close>

definition getDaysRemaining :: "millis \<Rightarrow> day option \<Rightarrow> int option" where
  "getDaysRemaining now endDateStr =
     (case endDateStr of
        None \<Rightarrow> None
      | Some e \<Rightarrow>
          (let diffTime = e * msPerDay - now
           in Some (- ((- diffTime) div msPerDay))))"
  \<comment> \<open>\<^verbatim>\<open>Math.ceil(diffTime / msPerDay)\<close>\<close>

definition isExpired :: "millis \<Rightarrow> contract \<Rightarrow> bool" where
  "isExpired now contract =
     (case getDaysRemaining now (endDate contract) of None \<Rightarrow> False | Some daysLeft \<Rightarrow> daysLeft < 0)"

definition isFuture :: "millis \<Rightarrow> contract \<Rightarrow> bool" where
  "isFuture now contract =
     (case startDate contract of None \<Rightarrow> False | Some s \<Rightarrow> s > isoDate now)"

datatype card_action = CheckInButton log_status | BrokeItButton | ClaimVictoryButton

definition ContractCard :: "millis \<Rightarrow> contract \<Rightarrow> daily_log option \<Rightarrow> card_action list" where
  "ContractCard now contract todayLog =
     (let isDone = (todayLog \<noteq> None)
      in (if isFuture now contract then []
          else if isExpired now contract then [ClaimVictoryButton]
          else if isDone then []
          else [CheckInButton Kept, BrokeItButton])
         @ (if \<not> isDone \<and> \<not> isFuture now contract \<and> \<not> isExpired now contract
            then [CheckInButton Exception] else []))"

section \<open>Scheduled jobs\<close>

text \<open>
  Both jobs start from \<^verbatim>\<open>db.collection('users').get()\<close> and loop over the documents of
  that snapshot.  The query lists the users whose document exists: the subtree of a user
  with no document is never read, whatever contracts it holds.
\<close>

subsection \<open>Weekly rollover\<close>

definition isActiveWeekly :: "contract \<Rightarrow> bool" where
  \<comment> \<open>the query \<^verbatim>\<open>status == 'active'\<close> and \<^verbatim>\<open>frequency.type == 'weekly'\<close>\<close>
  "isActiveWeekly c =
     (status c = Active \<and> (case frequency c of None \<Rightarrow> False | Some f \<Rightarrow> freq_type f = ''weekly''))"

definition rolloverGoal :: "contract \<Rightarrow> nat" where
  \<comment> \<open>\<^verbatim>\<open>contract.frequency?.timesPerWeek || 3\<close>\<close>
  "rolloverGoal contract =
     js_or_num (case frequency contract of None \<Rightarrow> None | Some f \<Rightarrow> timesPerWeek f) 3"

definition rolloverCompleted :: "contract \<Rightarrow> nat" where
  \<comment> \<open>\<^verbatim>\<open>contract.weeklyProgress?.completedCount || 0\<close>\<close>
  "rolloverCompleted contract =
     js_or_num (case weeklyProgress contract of None \<Rightarrow> None | Some w \<Rightarrow> completedCount w) 0"

definition rolloverUpdate :: "day \<Rightarrow> contract \<Rightarrow> contract_update" where
  "rolloverUpdate newWeekStart contract =
     (let goal = rolloverGoal contract;
          completed = rolloverCompleted contract;
          currentStreak = js_or_num (streak contract) 0;
          metGoal = (completed \<ge> goal);
          newStreak = (if metGoal then currentStreak + 1 else 0)
      in no_update\<lparr>u_streak := Some newStreak,
           u_weeklyProgress := Some \<lparr>weekStart = Some newWeekStart, completedCount = Some 0,
                                     lastCheckInDate = None\<rparr>\<rparr>)"

definition weeklyRolloverUser :: "millis \<Rightarrow> bool \<Rightarrow> user_data \<Rightarrow> user_data" where
  \<comment> \<open>the body of the loop over the users; \<open>ok\<close> says whether the store serves the turn
      of this user and accepts its batch; a failure is caught and logged, and the subtree
      is as it was\<close>
  "weeklyRolloverUser now ok db =
     (let contractsSnap = filter isActiveWeekly (contracts db)
      in if contractsSnap = [] then db
         else (let newWeekStart = isoDate now;
                   batch = map (\<lambda>c. UpdateContract (cid c) (rolloverUpdate newWeekStart c)) contractsSnap
               in case commit ok batch db of None \<Rightarrow> db | Some db' \<Rightarrow> db'))"

definition weeklyRollover ::
  "(uid \<Rightarrow> millis) \<Rightarrow> (uid \<Rightarrow> bool) \<Rightarrow> (uid \<times> user_data) list \<Rightarrow> (uid \<times> user_data) list" where
  \<comment> \<open>\<open>clock u\<close> is the time at which the loop reaches user \<open>u\<close>, \<open>ok u\<close> whether that
      user's commit succeeds\<close>
  "weeklyRollover clock ok users =
     map (\<lambda>(u, db). (u, if userDoc db = None then db
                          else weeklyRolloverUser (clock u) (ok u) db)) users"

subsection \<open>Daily auto-keep\<close>

definition isAutoKeepContract :: "contract \<Rightarrow> bool" where
  \<comment> \<open>the query \<^verbatim>\<open>status == 'active'\<close>, \<^verbatim>\<open>type == 'AVOID'\<close>, \<^verbatim>\<open>autoKeep == true\<close>\<close>
  "isAutoKeepContract c = (status c = Active \<and> ctype c = AVOID \<and> autoKeep c)"

definition autoKeepWrites :: "day \<Rightarrow> millis \<Rightarrow> doc_id list \<Rightarrow> contract \<Rightarrow> batch_op list" where
  "autoKeepWrites yesterdayStr now loggedContractIds contractDoc =
     (let contractId = cid contractDoc
      in if contractId \<notin> set loggedContractIds
         then [SetLog \<lparr>log_contractId = contractId, log_date = yesterdayStr, log_status = Kept,
                       log_notes = None, log_source = Some ''auto'', log_timestamp = now\<rparr>,
               UpdateContract contractId
                 (no_update\<lparr>u_streak := Some (js_or_num (streak contractDoc) 0 + 1),
                    u_lastCheckIn := Some now\<rparr>),
               SetJournal \<lparr>j_contractId = contractId,
                            j_text = ''Auto-completed (No violation reported)'',
                            j_createdAt = now, j_type = ''auto''\<rparr>]
         else [])"

definition dailyAutoKeepUser :: "day \<Rightarrow> millis \<Rightarrow> bool \<Rightarrow> user_data \<Rightarrow> user_data" where
  "dailyAutoKeepUser yesterdayStr now ok db =
     (let contractsSnap = filter isAutoKeepContract (contracts db)
      in if contractsSnap = [] then db
         else (let logsSnap = filter (\<lambda>l. log_date l = yesterdayStr) (logs db);
                   loggedContractIds = map log_contractId logsSnap;
                   batch = concat (map (autoKeepWrites yesterdayStr now loggedContractIds) contractsSnap)
               in if batch \<noteq> []
                  then (case commit ok batch db of None \<Rightarrow> db | Some db' \<Rightarrow> db')
                  else db))"


section \<open>Temptation records\<close>

datatype https_error = FailedPrecondition | InvalidArgument | Internal

record coach_result =
  r_temptationId :: doc_id
  r_coaching :: string
  r_resistedCount :: nat

definition fresh_temptation_id :: "temptation list \<Rightarrow> doc_id" where
  "fresh_temptation_id ts = Suc (fold max (map t_id ts) 0)"

definition coachTemptation ::
  "millis \<Rightarrow> string option \<Rightarrow> bool \<Rightarrow> bool \<Rightarrow> uid option \<Rightarrow> doc_id option \<Rightarrow> string \<Rightarrow> user_data
     \<Rightarrow> (https_error + coach_result) \<times> user_data" where
  \<comment> \<open>\<open>ai\<close> is the text the language model returns (\<open>None\<close> when the call throws, or
      when a read of the store before it does, which ends the same way);
      \<open>okSet\<close> and \<open>okUpdate\<close> say whether the two writes, which are not batched, succeed.
      The not-found error is thrown inside the \<^verbatim>\<open>try\<close> block and reaches the caller as
      an internal error\<close>
  "coachTemptation now ai okSet okUpdate auth contractId context db =
     (case auth of
        None \<Rightarrow> (Inl FailedPrecondition, db)
      | Some u \<Rightarrow>
          (case contractId of
             None \<Rightarrow> (Inl InvalidArgument, db)
           | Some i \<Rightarrow>
               (case find (\<lambda>c. cid c = i) (contracts db) of
                  None \<Rightarrow> (Inl Internal, db)
                | Some contract \<Rightarrow>
                    (case ai of
                       None \<Rightarrow> (Inl Internal, db)
                     | Some coachingText \<Rightarrow>
                         (if \<not> okSet then (Inl Internal, db)
                          else
                            (let tid = fresh_temptation_id (temptations db);
                                 db1 = db\<lparr>temptations := temptations db @
                                         [\<lparr>t_id = tid, t_contractId = i, t_createdAt = now,
                                           t_context = (if context = [] then None else Some context),
                                           t_aiResponse = coachingText, t_outcome = ''pending'',
                                           t_resolvedAt = None\<rparr>]\<rparr>
                             in if \<not> okUpdate then (Inl Internal, db1)
                                else (Inr \<lparr>r_temptationId = tid, r_coaching = coachingText,
                                            r_resistedCount = js_or_num (resistedCount contract) 0\<rparr>,
                                      db1\<lparr>contracts := update_where i
                                             (\<lambda>c. c\<lparr>lastTemptation := Some now\<rparr>) (contracts db1)\<rparr>)))))))"

definition markTemptationOutcome ::
  "millis \<Rightarrow> bool \<Rightarrow> bool \<Rightarrow> uid option \<Rightarrow> doc_id option \<Rightarrow> doc_id option \<Rightarrow> string \<Rightarrow> user_data
     \<Rightarrow> (https_error + unit) \<times> user_data" where
  \<comment> \<open>an absent \<^verbatim>\<open>outcome\<close> is the empty string; the update of the temptation and the
      increment of \<^verbatim>\<open>resistedCount\<close> are two separate writes\<close>
  "markTemptationOutcome now okTemptation okContract auth contractId temptationId outcome' db =
     (case auth of
        None \<Rightarrow> (Inl FailedPrecondition, db)
      | Some u \<Rightarrow>
          (case (contractId, temptationId) of
             (Some i, Some t) \<Rightarrow>
               (if outcome' = [] then (Inl InvalidArgument, db)
                else if outcome' \<notin> set [''resisted'', ''relapsed''] then (Inl InvalidArgument, db)
                else if \<not> (okTemptation \<and> list_ex (\<lambda>x. t_contractId x = i \<and> t_id x = t) (temptations db))
                then (Inl Internal, db)
                else
                  (let db1 = db\<lparr>temptations :=
                               map (\<lambda>x. if t_contractId x = i \<and> t_id x = t
                                         then x\<lparr>t_outcome := outcome', t_resolvedAt := Some now\<rparr>
                                         else x) (temptations db)\<rparr>
                   in if outcome' = ''resisted''
                      then (if okContract \<and> i \<in> set (map cid (contracts db1))
                            then (Inr (),
                                  db1\<lparr>contracts := update_where i
                                         (\<lambda>c. c\<lparr>resistedCount := Some (js_or_num (resistedCount c) 0 + 1)\<rparr>)
                                         (contracts db1)\<rparr>)
                            else (Inl Internal, db1))
                      else (Inr (), db1)))
           | _ \<Rightarrow> (Inl InvalidArgument, db)))"

section \<open>The client as a state machine\<close>

text \<open>
  The handlers are closures of the component \<^verbatim>\<open>Laosfactos\<close>; they run only when the
  user presses a button that the current view renders.  The state below is the state of
  that component together with the user's subtree in the store; the list of contracts
  and the logs of the day that the listeners deliver are read from the subtree (one
  client, whose listeners have delivered the last snapshot).  \<open>listenDay\<close> is the date
  that the listener on the logs was started with: the effect that starts it runs when
  the user changes, not when the day does.

  An intent is a press of a button, the resolution of a commit that the client awaits,
  or a run of a scheduled job on the user's subtree.  Each step takes the time at which
  it happens and whether the store accepts its write.  The form for a new contract opens
  from the dashboard whatever the number of active contracts, and the header navigates
  from every view: the model allows at least the steps that the client allows.

  \<^verbatim>\<open>handleViolation\<close> closes the violation form only after \<^verbatim>\<open>await batch.commit()\<close>
  has resolved.  The writes of the batch reach the client's copy of the store when the
  commit is issued; the promise resolves when the server has acknowledged them.  Until
  then the form stays open on the same contract and its button stays enabled, so the
  handler can run again.  \<open>pendingViolations\<close> counts the commits of violations that have
  not resolved yet.
\<close>

datatype view = Dashboard | CreateView | ViolationView | ReviewView | HistoryView

record app_state =
  app_user :: "uid option"
  app_view :: view
  activeViolationContract :: "contract option"
  pendingViolations :: nat
  listenDay :: day
  app_db :: user_data

datatype intent =
    ClickNew
  | SubmitContract contract_data
  | ClickCheckIn doc_id log_status
  | ClickBrokeIt doc_id
  | SubmitViolation violation_data
  | ViolationCommitted
  | CancelViolation
  | ClickClaimVictory doc_id
  | Navigate view
  | RunWeeklyRollover
  | RunDailyAutoKeep

definition todayLogOf :: "day \<Rightarrow> user_data \<Rightarrow> doc_id \<Rightarrow> daily_log option" where
  \<comment> \<open>\<^verbatim>\<open>todayLogs[contract.id]\<close>: the listener on the logs whose date is the day it was
      started keeps, for each contract, the last log of the snapshot\<close>
  "todayLogOf d db i =
     find (\<lambda>l. log_contractId l = i) (rev (filter (\<lambda>l. log_date l = d) (logs db)))"

definition offered :: "millis \<Rightarrow> app_state \<Rightarrow> doc_id \<Rightarrow> card_action \<Rightarrow> contract option" where
  \<comment> \<open>the dashboard renders a card for each active contract; the result is the contract
      whose card shows the button, if any\<close>
  "offered now s i a =
     (if app_view s = Dashboard
      then (case find (\<lambda>c. cid c = i) (filter (\<lambda>c. status c = Active) (contracts (app_db s))) of
              None \<Rightarrow> None
            | Some c \<Rightarrow>
                (if a \<in> set (ContractCard now c (todayLogOf (listenDay s) (app_db s) i))
                 then Some c else None))
      else None)"

fun step :: "millis \<Rightarrow> bool \<Rightarrow> app_state \<Rightarrow> intent \<Rightarrow> app_state" where
  "step now ok s ClickNew =
     (if app_view s = Dashboard then s\<lparr>app_view := CreateView\<rparr> else s)"
| "step now ok s (SubmitContract contractData) =
     (if app_view s = CreateView
      then (case handleCreateContract now ok (app_user s) contractData (app_db s) of
              None \<Rightarrow> s\<lparr>app_view := Dashboard\<rparr>
            | Some d \<Rightarrow> s\<lparr>app_db := d, app_view := Dashboard\<rparr>)
      else s)"
| "step now ok s (ClickCheckIn i st) =
     (case offered now s i (CheckInButton st) of
        None \<Rightarrow> s
      | Some c \<Rightarrow>
          (case handleCheckIn now ok (app_user s) (contracts (app_db s)) i st [] (app_db s) of
             None \<Rightarrow> s
           | Some d \<Rightarrow> s\<lparr>app_db := d\<rparr>))"
| "step now ok s (ClickBrokeIt i) =
     (case offered now s i BrokeItButton of
        None \<Rightarrow> s
      | Some c \<Rightarrow> s\<lparr>activeViolationContract := Some c, app_view := ViolationView\<rparr>)"
| "step now ok s (SubmitViolation violationData) =
     (if app_view s = ViolationView
      then (case handleViolation now ok (app_user s) (activeViolationContract s) violationData (app_db s) of
              None \<Rightarrow> s
            | Some d \<Rightarrow> s\<lparr>app_db := d, pendingViolations := Suc (pendingViolations s)\<rparr>)
      else s)"
| "step now ok s ViolationCommitted =
     (if 0 < pendingViolations s
      then s\<lparr>activeViolationContract := None, app_view := Dashboard,
             pendingViolations := pendingViolations s - 1\<rparr>
      else s)"
| "step now ok s CancelViolation =
     (if app_view s = ViolationView \<and> activeViolationContract s \<noteq> None
      then s\<lparr>activeViolationContract := None, app_view := Dashboard\<rparr>
      else s)"
| "step now ok s (ClickClaimVictory i) =
     (case offered now s i ClaimVictoryButton of
        None \<Rightarrow> s
      | Some c \<Rightarrow>
          (case handleCompleteContract now ok (app_user s) c (app_db s) of
             None \<Rightarrow> s
           | Some d \<Rightarrow> s\<lparr>app_db := d\<rparr>))"
| "step now ok s (Navigate v) =
     (if v \<in> set [Dashboard, ReviewView, HistoryView] then s\<lparr>app_view := v\<rparr> else s)"
| "step now ok s RunWeeklyRollover =
     (if userDoc (app_db s) = None then s
      else s\<lparr>app_db := weeklyRolloverUser now ok (app_db s)\<rparr>)"
| "step now ok s RunDailyAutoKeep =
     (if userDoc (app_db s) = None then s
      else s\<lparr>app_db := dailyAutoKeepUser (isoDate now - 1) now ok (app_db s)\<rparr>)"

fun run :: "app_state \<Rightarrow> (millis \<times> bool \<times> intent) list \<Rightarrow> app_state" where
  "run s [] = s"
| "run s ((now, ok, i) # es) = run (step now ok s i) es"

definition init_state :: "uid \<Rightarrow> day \<Rightarrow> app_state" where
  "init_state u d = \<lparr>app_user = Some u, app_view = Dashboard, activeViolationContract = None,
     pendingViolations = 0, listenDay = d, app_db = empty_user\<rparr>"

section \<open>Sequences of lifecycle operations\<close>

text \<open>
  A lifecycle operation on the subtree of one user is a call of one of the four handlers
  of the client, with whatever arguments the calling client holds (its copy of the
  contracts, the contract of its violation form, the contract of a card), or the turn of
  that user in one of the two scheduled jobs.  Calls from several clients of the same
  user are sequences of such operations as well.
\<close>

datatype lifecycle_op =
    Create contract_data
  | CheckIn "contract list" doc_id log_status string
  | ReportViolation "contract option" violation_data
  | Complete contract
  | WeeklyRolloverTurn
  | DailyAutoKeepTurn

fun apply_op :: "millis \<Rightarrow> bool \<Rightarrow> uid option \<Rightarrow> user_data \<Rightarrow> lifecycle_op \<Rightarrow> user_data" where
  "apply_op now ok user db (Create contractData) =
     (case handleCreateContract now ok user contractData db of None \<Rightarrow> db | Some d \<Rightarrow> d)"
| "apply_op now ok user db (CheckIn cs contractId st notes) =
     (case handleCheckIn now ok user cs contractId st notes db of None \<Rightarrow> db | Some d \<Rightarrow> d)"
| "apply_op now ok user db (ReportViolation a violationData) =
     (case handleViolation now ok user a violationData db of None \<Rightarrow> db | Some d \<Rightarrow> d)"
| "apply_op now ok user db (Complete contract) =
     (case handleCompleteContract now ok user contract db of None \<Rightarrow> db | Some d \<Rightarrow> d)"
| "apply_op now ok user db WeeklyRolloverTurn =
     (if userDoc db = None then db else weeklyRolloverUser now ok db)"
| "apply_op now ok user db DailyAutoKeepTurn =
     (if userDoc db = None then db else dailyAutoKeepUser (isoDate now - 1) now ok db)"

fun run_ops :: "uid option \<Rightarrow> user_data \<Rightarrow> (millis \<times> bool \<times> lifecycle_op) list \<Rightarrow> user_data" where
  "run_ops user db [] = db"
| "run_ops user db ((now, ok, op) # es) = run_ops user (apply_op now ok user db op) es"

subsection \<open>The consistency of a contract document\<close>

definition consistent :: "contract \<Rightarrow> bool" where
  "consistent c =
     ((outcome c \<noteq> None \<longleftrightarrow> status c = Archived) \<and>
      (outcome c = Some Breached \<longleftrightarrow> failureReason c \<noteq> None))"

text \<open>
  The two writes that no handler guards: a violation with the decision to pause that
  reaches an archived contract, and a completion that reaches a breached contract.  An
  operation is \<open>in_order\<close> for a store when it is neither; a sequence is, when each of
  its operations is for the store it meets.
\<close>

fun in_order :: "user_data \<Rightarrow> lifecycle_op \<Rightarrow> bool" where
  "in_order db (ReportViolation (Some a) violationData) =
     (decision violationData = Pause \<longrightarrow>
        list_all (\<lambda>c. cid c = cid a \<longrightarrow> status c \<noteq> Archived) (contracts db))"
| "in_order db (Complete contract) =
     list_all (\<lambda>c. cid c = cid contract \<longrightarrow> outcome c \<noteq> Some Breached) (contracts db)"
| "in_order db _ = True"

fun all_in_order :: "uid option \<Rightarrow> user_data \<Rightarrow> (millis \<times> bool \<times> lifecycle_op) list \<Rightarrow> bool" where
  "all_in_order user db [] = True"
| "all_in_order user db ((now, ok, op) # es) =
     (in_order db op \<and> all_in_order user (apply_op now ok user db op) es)"

section \<open>Notions used in the statements and proofs\<close>






definition autoKept :: "millis \<Rightarrow> contract \<Rightarrow> contract" where
  "autoKept now c = c\<lparr>streak := Some (js_or_num (streak c) 0 + 1), lastCheckIn := Some now\<rparr>"


definition lifecycle :: "contract \<Rightarrow> doc_id \<times> contract_status \<times> contract_outcome option \<times> string option" where
  \<comment> \<open>the fields of a contract that the invariant reads\<close>
  "lifecycle c = (cid c, status c, outcome c, failureReason c)"

fun benign :: "batch_op \<Rightarrow> bool" where
  \<comment> \<open>a write that leaves the status, the outcome and the failure reason of every contract\<close>
  "benign (UpdateContract i u) = (u_status u = None \<and> u_outcome u = None \<and> u_failureReason u = None)"
| "benign _ = True"

section \<open>Example documents\<close>

text \<open>
  Day 3 starts at 259200000 ms and day 7 at 604800000 ms.  The examples have one user,
  \<^verbatim>\<open>u\<close>, with one contract, whose identifier is 1.
\<close>

definition ex_data :: contract_data where
  "ex_data = \<lparr>title = ''No sugar'', pillar = ''health'', ctype = AVOID,
     behavior = ''No sweets on weekdays'', startDate = Some 0, endDate = None, importance = 3,
     exceptions = [], penalty = [], witnessLinked = True\<rparr>"

definition ex_contract :: contract where
  \<comment> \<open>a contract with streak 5 and a linked witness\<close>
  "ex_contract = (newContract 0 1 ex_data)\<lparr>streak := Some 5\<rparr>"

definition ex_db :: user_data where
  "ex_db = empty_user\<lparr>contracts := [ex_contract]\<rparr>"

definition ex_log :: daily_log where
  "ex_log = \<lparr>log_contractId = 1, log_date = 3, log_status = Kept, log_notes = Some [],
     log_source = None, log_timestamp = 259200001\<rparr>"

definition ex_logged_db :: user_data where
  "ex_logged_db = ex_db\<lparr>logs := [ex_log]\<rparr>"


definition ex_state :: "user_data \<Rightarrow> app_state" where
  "ex_state d = \<lparr>app_user = Some ''u'', app_view = Dashboard, activeViolationContract = None,
     pendingViolations = 0, listenDay = 3, app_db = d\<rparr>"

definition ex_clock :: "uid \<Rightarrow> millis" where
  "ex_clock u = 604800000"

definition ex_ok :: "uid \<Rightarrow> bool" where
  "ex_ok u = True"

definition ex_weekly :: "nat option \<Rightarrow> weekly_progress option \<Rightarrow> contract" where
  \<comment> \<open>an active weekly contract with streak 4\<close>
  "ex_weekly g w = ex_contract\<lparr>streak := Some 4,
     frequency := Some \<lparr>freq_type = ''weekly'', timesPerWeek = g\<rparr>, weeklyProgress := w\<rparr>"

definition ex_progress :: "nat \<Rightarrow> weekly_progress" where
  "ex_progress n = \<lparr>weekStart = Some 0, completedCount = Some n, lastCheckInDate = None\<rparr>"

definition ex_notified :: "contract \<Rightarrow> user_data" where
  \<comment> \<open>the subtree of a user who has enabled notifications, with one contract\<close>
  "ex_notified c =
     (handleEnableNotifications True (Some ''token'') True (Some ''u'') empty_user)\<lparr>contracts := [c]\<rparr>"

definition ex_users :: "contract \<Rightarrow> (uid \<times> user_data) list" where
  "ex_users c = [(''u'', ex_notified c)]"




definition ex_tempted_db :: user_data where
  \<comment> \<open>the store after a coaching request for contract 1\<close>
  "ex_tempted_db = snd (coachTemptation 100 (Some ''Drink water.'') True True (Some ''u'') (Some 1) ''cake'' ex_db)"

definition ex_resisted_db :: user_data where
  \<comment> \<open>the store after the record was marked as resisted\<close>
  "ex_resisted_db = snd (markTemptationOutcome 200 True True (Some ''u'') (Some 1) (Some 1) ''resisted'' ex_tempted_db)"

definition ex_new :: contract where
  \<comment> \<open>the contract that the form data gives on day 3, as the client holds it\<close>
  "ex_new = newContract 259200005 1 ex_data"

definition ex_retire :: violation_data where
  "ex_retire = \<lparr>reason = ''Impulse'', story = ''ate cake'', decision = Retire\<rparr>"

definition ex_pause :: violation_data where
  "ex_pause = \<lparr>reason = ''Impulse'', story = ''ate cake'', decision = Pause\<rparr>"

definition ex_paused_breached :: contract where
  \<comment> \<open>paused, and still breached\<close>
  "ex_paused_breached = ex_new\<lparr>lastCheckIn := Some 259200011, status := Paused,
     outcome := Some Breached, failureReason := Some ''ate cake'', archivedAt := Some 259200009\<rparr>"

definition ex_completed_breached :: contract where
  \<comment> \<open>completed, with the failure reason of the breach\<close>
  "ex_completed_breached = ex_new\<lparr>lastCheckIn := Some 259200009, status := Archived,
     outcome := Some Completed, failureReason := Some ''ate cake'', archivedAt := Some 259200011\<rparr>"

definition ex_double_submit_ops :: "(millis \<times> bool \<times> lifecycle_op) list" where
  \<comment> \<open>draft a contract, report a violation and retire it, report again and pause it\<close>
  "ex_double_submit_ops = [(259200005, True, Create ex_data),
     (259200009, True, ReportViolation (Some ex_new) ex_retire),
     (259200011, True, ReportViolation (Some ex_new) ex_pause)]"

definition ex_double_submit :: "(millis \<times> bool \<times> intent) list" where
  \<comment> \<open>the same in one client: the violation form is submitted twice before the first
      commit resolves\<close>
  "ex_double_submit = [(259200005, True, ClickNew), (259200005, True, SubmitContract ex_data),
     (259200007, True, ClickBrokeIt 1),
     (259200009, True, SubmitViolation ex_retire), (259200011, True, SubmitViolation ex_pause)]"

definition ex_complete_breached_ops :: "(millis \<times> bool \<times> lifecycle_op) list" where
  \<comment> \<open>draft a contract, retire it, then complete it from a card that still shows it\<close>
  "ex_complete_breached_ops = [(259200005, True, Create ex_data),
     (259200009, True, ReportViolation (Some ex_new) ex_retire),
     (259200011, True, Complete ex_new)]"

definition ex_new2 :: contract where
  "ex_new2 = newContract 259200006 2 ex_data"

definition ex_guarded_ops :: "(millis \<times> bool \<times> lifecycle_op) list" where
  \<comment> \<open>draft two contracts, pause the first after a violation, complete the second\<close>
  "ex_guarded_ops = [(259200005, True, Create ex_data), (259200006, True, Create ex_data),
     (259200009, True, ReportViolation (Some ex_new) ex_pause),
     (259200011, True, Complete ex_new2)]"

definition ex_paused :: contract where
  "ex_paused = ex_new\<lparr>lastCheckIn := Some 259200009, status := Paused\<rparr>"

definition ex_completed :: contract where
  "ex_completed = ex_new2\<lparr>status := Archived, outcome := Some Completed,
     archivedAt := Some 259200011\<rparr>"

section \<open>Auxiliary lemmas\<close>


lemma find_Some_set: "find P xs = Some x \<Longrightarrow> x \<in> set xs \<and> P x"
  by (induction xs) (auto split: if_splits)

lemma update_where_distinct:
  assumes "distinct (map cid cs)" and "c \<in> set cs"
  shows "update_where (cid c) g cs = map (\<lambda>x. if x = c then g c else x) cs"
  unfolding update_where_def using assms
  by (intro map_cong refl) (auto simp: distinct_map inj_on_def)

lemma cid_apply_update [simp]: "cid (apply_update u c) = cid c"
  by (simp add: apply_update_def)





section \<open>Check-in\<close>

lemma handleCheckIn_commit:
  assumes "find (\<lambda>c. cid c = contractId) cs = Some contract"
    and "contractId \<in> cid ` set (contracts db)"
  shows "handleCheckIn now ok (Some u) cs contractId st notes db =
     (if ok
      then Some (db\<lparr>logs := logs db @
                    [\<lparr>log_contractId = contractId, log_date = isoDate now, log_status = st,
                      log_notes = Some notes, log_source = None, log_timestamp = now\<rparr>],
                  contracts := update_where contractId
                    (\<lambda>c. c\<lparr>streak := Some (js_or_num (streak contract) 0 + (if st = Kept then 1 else 0)),
                           lastCheckIn := Some now\<rparr>) (contracts db)\<rparr>)
      else None)"
  using assms
  by (auto simp: handleCheckIn_def checkInBatch_def commit_def Let_def update_doc_def
      apply_update_def no_update_def update_where_def)



lemma handleViolation_commit:
  assumes "cid a \<in> cid ` set (contracts db)"
  shows "handleViolation now ok (Some u) (Some a) vd db =
     (if ok
      then Some (db\<lparr>
        violations := violations db @
          [\<lparr>reason = reason vd, story = story vd, decision = decision vd,
            v_contractId = cid a, v_contractTitle = title a, v_timestamp = now\<rparr>],
        logs := logs db @
          [\<lparr>log_contractId = cid a, log_date = isoDate now, log_status = Broken,
            log_notes = Some (story vd), log_source = None, log_timestamp = now\<rparr>],
        contracts := update_where (cid a)
          (\<lambda>c. c\<lparr>streak := Some 0, lastCheckIn := Some now,
                 status := (case decision vd of Recommit \<Rightarrow> status c | Pause \<Rightarrow> Paused | Retire \<Rightarrow> Archived),
                 outcome := (if decision vd = Retire then Some Breached else outcome c),
                 failureReason := (if decision vd = Retire
                                   then Some (if story vd = [] then reason vd else story vd)
                                   else failureReason c),
                 archivedAt := (if decision vd = Retire then Some now else archivedAt c)\<rparr>)
          (contracts db)\<rparr>)
      else None)"
  using assms
  by (cases "decision vd")
     (auto simp: handleViolation_def violationBatch_def violationUpdates_def commit_def Let_def
        update_doc_def apply_update_def no_update_def update_where_def js_or_str_def)

text \<open>
  C2.  The client holds the contracts of the store and the signed-in user reports a
  violation of one of them, with any of the three decisions.  The handler issues one
  batch, which commits as a whole or not at all.  When it commits, the store differs from
  the one before in exactly this: one more violation record; one more daily log, for
  today, with status \<open>Broken\<close> and the story as its notes; and, in the contract, streak 0
  and the time of the last check-in, whatever the decision, the status \<open>Paused\<close> on a
  pause, and on a retirement the status \<open>Archived\<close>, the outcome \<open>Breached\<close>, the story
  (the reason code if the story is empty) as failure reason and the time of archival.
\<close>

theorem handleViolation_effect:
  assumes "distinct (map cid (contracts db))" and "a \<in> set (contracts db)"
  shows "handleViolation now ok (Some u) (Some a) vd db =
     (if ok
      then Some (db\<lparr>
        violations := violations db @
          [\<lparr>reason = reason vd, story = story vd, decision = decision vd,
            v_contractId = cid a, v_contractTitle = title a, v_timestamp = now\<rparr>],
        logs := logs db @
          [\<lparr>log_contractId = cid a, log_date = isoDate now, log_status = Broken,
            log_notes = Some (story vd), log_source = None, log_timestamp = now\<rparr>],
        contracts := map (\<lambda>c. if c = a
          then a\<lparr>streak := Some 0, lastCheckIn := Some now,
                 status := (case decision vd of Recommit \<Rightarrow> status a | Pause \<Rightarrow> Paused | Retire \<Rightarrow> Archived),
                 outcome := (if decision vd = Retire then Some Breached else outcome a),
                 failureReason := (if decision vd = Retire
                                   then Some (if story vd = [] then reason vd else story vd)
                                   else failureReason a),
                 archivedAt := (if decision vd = Retire then Some now else archivedAt a)\<rparr>
          else c) (contracts db)\<rparr>)
      else None)"
proof -
  have m: "cid a \<in> cid ` set (contracts db)"
    using assms(2) by blast
  show ?thesis
    unfolding handleViolation_commit [OF m] update_where_distinct [OF assms] by simp
qed

text \<open>
  The scenario of the specification: streak 5, a linked witness, the decision to retire
  and the story \<^verbatim>\<open>ate cake\<close>.
\<close>

theorem handleViolation_effect_witness:
  "distinct (map cid (contracts ex_db)) \<and> ex_contract \<in> set (contracts ex_db) \<and>
   streak ex_contract = Some 5 \<and> witnessLinked ex_contract \<and>
   handleViolation 259200005 True (Some ''u'') (Some ex_contract)
       \<lparr>reason = ''Impulse'', story = ''ate cake'', decision = Retire\<rparr> ex_db =
     Some (ex_db\<lparr>
       violations := [\<lparr>reason = ''Impulse'', story = ''ate cake'', decision = Retire,
                       v_contractId = 1, v_contractTitle = ''No sugar'', v_timestamp = 259200005\<rparr>],
       logs := [\<lparr>log_contractId = 1, log_date = 3, log_status = Broken,
                 log_notes = Some ''ate cake'', log_source = None, log_timestamp = 259200005\<rparr>],
       contracts := [ex_contract\<lparr>streak := Some 0, lastCheckIn := Some 259200005,
                       status := Archived, outcome := Some Breached,
                       failureReason := Some ''ate cake'', archivedAt := Some 259200005\<rparr>]\<rparr>)"
proof -
  have h1: "distinct (map cid (contracts ex_db))"
    by (simp add: ex_db_def)
  have h2: "ex_contract \<in> set (contracts ex_db)"
    by (simp add: ex_db_def)
  show ?thesis
    using h1 h2 handleViolation_effect [OF h1 h2, of 259200005 True "''u''"
        "\<lparr>reason = ''Impulse'', story = ''ate cake'', decision = Retire\<rparr>"]
    by (simp add: ex_db_def ex_contract_def ex_data_def newContract_def empty_user_def isoDate_def msPerDay_def)
qed

section \<open>The guard of the check-in\<close>

text \<open>
  C1, as stated, fails: the store already holds a daily log of contract 1 for day 3, and
  a check-in on that contract on day 3 is not rejected; it writes a second log for the
  same contract and day and increments the streak again.  The handler receives such a
  call from the client itself: the listener on the logs keeps the date of the day it was
  started, so in a client started on day 2 the card still shows the button after a
  check-in on day 3, and a second press writes a second log for day 3.
\<close>

theorem handleCheckIn_second_log:
  "log_contractId ex_log = 1 \<and> log_date ex_log = isoDate 259200005 \<and>
   logs ex_logged_db = [ex_log] \<and>
   handleCheckIn 259200005 True (Some ''u'') (contracts ex_logged_db) 1 Kept [] ex_logged_db =
     Some (ex_logged_db\<lparr>
       logs := [ex_log,
                \<lparr>log_contractId = 1, log_date = isoDate 259200005, log_status = Kept,
                  log_notes = Some [], log_source = None, log_timestamp = 259200005\<rparr>],
       contracts := [ex_contract\<lparr>streak := Some 6, lastCheckIn := Some 259200005\<rparr>]\<rparr>) \<and>
   logs (app_db (run ((ex_state ex_db)\<lparr>listenDay := 2\<rparr>)
     [(259200005, True, ClickCheckIn 1 Kept), (259200009, True, ClickCheckIn 1 Kept)])) =
     [\<lparr>log_contractId = 1, log_date = 3, log_status = Kept,
       log_notes = Some [], log_source = None, log_timestamp = 259200005\<rparr>,
      \<lparr>log_contractId = 1, log_date = 3, log_status = Kept,
       log_notes = Some [], log_source = None, log_timestamp = 259200009\<rparr>]"
  by (simp add: ex_logged_db_def ex_log_def ex_db_def ex_contract_def newContract_def empty_user_def
      isoDate_def msPerDay_def handleCheckIn_def checkInBatch_def commit_def Let_def
      update_doc_def update_where_def apply_update_def no_update_def
      ex_state_def ex_data_def offered_def todayLogOf_def ContractCard_def isFuture_def
      isExpired_def getDaysRemaining_def)

lemma card_checkin_guard:
  "CheckInButton st \<in> set (ContractCard now c todayLog) \<Longrightarrow> todayLog = None"
  by (auto simp: ContractCard_def Let_def split: if_splits)

lemma offered_SomeD:
  "offered now s i a = Some c \<Longrightarrow>
     app_view s = Dashboard \<and> c \<in> set (contracts (app_db s)) \<and> cid c = i \<and> status c = Active \<and>
     a \<in> set (ContractCard now c (todayLogOf (listenDay s) (app_db s) i))"
  by (auto simp: offered_def split: if_splits option.splits dest!: find_Some_set)

text \<open>
  C1, amended.  The handler of the check-in looks at no daily log: whenever the user is
  signed in, the contract is in the client's list and in the store, and the batch
  commits, it appends a daily log, whatever logs the store holds.  That no log exists
  for today is a condition of the contract card, which shows a check-in button only
  when it was given no log of today for the contract; so a press of a check-in button
  changes the state only when the client knows of no such log.
\<close>

theorem checkIn_guard_in_card:
  "(find (\<lambda>c. cid c = contractId) cs = Some contract \<and> contractId \<in> cid ` set (contracts db) \<longrightarrow>
      (\<exists>db'. handleCheckIn now True (Some u) cs contractId st notes db = Some db' \<and>
         logs db' = logs db @
           [\<lparr>log_contractId = contractId, log_date = isoDate now, log_status = st,
             log_notes = Some notes, log_source = None, log_timestamp = now\<rparr>])) \<and>
   (CheckInButton st \<in> set (ContractCard now c todayLog) \<longrightarrow> todayLog = None) \<and>
   (step now ok s (ClickCheckIn i st) \<noteq> s \<longrightarrow> todayLogOf (listenDay s) (app_db s) i = None)"
proof (intro conjI impI)
  assume "find (\<lambda>c. cid c = contractId) cs = Some contract \<and> contractId \<in> cid ` set (contracts db)"
  then show "\<exists>db'. handleCheckIn now True (Some u) cs contractId st notes db = Some db' \<and>
         logs db' = logs db @
           [\<lparr>log_contractId = contractId, log_date = isoDate now, log_status = st,
             log_notes = Some notes, log_source = None, log_timestamp = now\<rparr>]"
    by (simp add: handleCheckIn_commit)
next
  assume "CheckInButton st \<in> set (ContractCard now c todayLog)"
  then show "todayLog = None" by (rule card_checkin_guard)
next
  assume a: "step now ok s (ClickCheckIn i st) \<noteq> s"
  then obtain c where "offered now s i (CheckInButton st) = Some c"
    by (cases "offered now s i (CheckInButton st)") auto
  then show "todayLogOf (listenDay s) (app_db s) i = None"
    using offered_SomeD card_checkin_guard by blast
qed

text \<open>
  The three parts at concrete inputs: the handler appends a second log to the store that
  already holds one for the day; the card of a contract with no log shows the button;
  and the press of that button changes a state in which the listener reports no log.
\<close>

theorem checkIn_guard_in_card_witness:
  "find (\<lambda>c. cid c = 1) (contracts ex_logged_db) = Some ex_contract \<and>
   1 \<in> cid ` set (contracts ex_logged_db) \<and>
   (\<exists>db'. handleCheckIn 259200005 True (Some ''u'') (contracts ex_logged_db) 1 Kept [] ex_logged_db = Some db' \<and>
      logs db' = [ex_log, \<lparr>log_contractId = 1, log_date = 3, log_status = Kept,
             log_notes = Some [], log_source = None, log_timestamp = 259200005\<rparr>]) \<and>
   CheckInButton Kept \<in> set (ContractCard 259200005 ex_contract None) \<and>
   step 259200005 True (ex_state ex_db) (ClickCheckIn 1 Kept) \<noteq> ex_state ex_db \<and>
   todayLogOf (listenDay (ex_state ex_db)) (app_db (ex_state ex_db)) 1 = None"
proof -
  have h1: "find (\<lambda>c. cid c = 1) (contracts ex_logged_db) = Some ex_contract \<and>
      1 \<in> cid ` set (contracts ex_logged_db)"
    by (simp add: ex_logged_db_def ex_db_def ex_contract_def newContract_def)
  have h2: "CheckInButton Kept \<in> set (ContractCard 259200005 ex_contract None)"
    by (simp add: ContractCard_def isFuture_def isExpired_def getDaysRemaining_def
        ex_contract_def newContract_def ex_data_def isoDate_def msPerDay_def)
  have h3: "step 259200005 True (ex_state ex_db) (ClickCheckIn 1 Kept) \<noteq> ex_state ex_db"
    by (simp add: ex_state_def ex_db_def offered_def todayLogOf_def empty_user_def
        ContractCard_def isFuture_def isExpired_def getDaysRemaining_def
        ex_contract_def newContract_def ex_data_def isoDate_def msPerDay_def
        handleCheckIn_def checkInBatch_def commit_def Let_def)
  show ?thesis
    using h1 h2 h3
      checkIn_guard_in_card [where contractId = 1 and cs = "contracts ex_logged_db"
        and contract = ex_contract and db = ex_logged_db and now = 259200005 and u = "''u''"
        and st = Kept and ?notes = "[]" and c = ex_contract and todayLog = None and ok = True
        and s = "ex_state ex_db" and i = 1]
    by (simp add: ex_logged_db_def isoDate_def msPerDay_def)
qed

section \<open>Claiming victory\<close>



lemma handleCompleteContract_Some:
  "handleCompleteContract now ok user c db = Some db' \<Longrightarrow>
     db' = db\<lparr>contracts := update_where (cid c)
              (\<lambda>k. k\<lparr>status := Archived, outcome := Some Completed, archivedAt := Some now\<rparr>)
              (contracts db)\<rparr>"
  by (auto simp: handleCompleteContract_def commit_def update_doc_def apply_update_def
      no_update_def update_where_def split: option.splits if_splits)



section \<open>Temptation records\<close>

lemma ex_tempted_db_eq:
  "ex_tempted_db = ex_db\<lparr>temptations := [\<lparr>t_id = 1, t_contractId = 1, t_createdAt = 100,
      t_context = Some ''cake'', t_aiResponse = ''Drink water.'', t_outcome = ''pending'',
      t_resolvedAt = None\<rparr>],
    contracts := [ex_contract\<lparr>lastTemptation := Some 100\<rparr>]\<rparr>"
  by (simp add: ex_tempted_db_def coachTemptation_def ex_db_def ex_contract_def newContract_def
      empty_user_def fresh_temptation_id_def update_where_def Let_def)

lemma ex_resisted_db_eq:
  "ex_resisted_db = ex_db\<lparr>temptations := [\<lparr>t_id = 1, t_contractId = 1, t_createdAt = 100,
      t_context = Some ''cake'', t_aiResponse = ''Drink water.'', t_outcome = ''resisted'',
      t_resolvedAt = Some 200\<rparr>],
    contracts := [ex_contract\<lparr>lastTemptation := Some 100, resistedCount := Some 1\<rparr>]\<rparr>"
  by (simp add: ex_resisted_db_def ex_tempted_db_eq markTemptationOutcome_def ex_db_def
      ex_contract_def newContract_def empty_user_def update_where_def Let_def)

text \<open>
  C9, as stated, fails: a record that a first call has moved from \<^verbatim>\<open>pending\<close> to
  \<^verbatim>\<open>resisted\<close> is moved to \<^verbatim>\<open>relapsed\<close> by a second call, which is accepted like the
  first.
\<close>

theorem markTemptationOutcome_twice:
  "map t_outcome (temptations ex_tempted_db) = [''pending''] \<and>
   fst (markTemptationOutcome 200 True True (Some ''u'') (Some 1) (Some 1) ''resisted'' ex_tempted_db) = Inr () \<and>
   map t_outcome (temptations ex_resisted_db) = [''resisted''] \<and>
   fst (markTemptationOutcome 300 True True (Some ''u'') (Some 1) (Some 1) ''relapsed'' ex_resisted_db) = Inr () \<and>
   map t_outcome (temptations
     (snd (markTemptationOutcome 300 True True (Some ''u'') (Some 1) (Some 1) ''relapsed'' ex_resisted_db))) =
     [''relapsed'']"
  by (simp add: ex_resisted_db_eq ex_tempted_db_eq)
     (simp add: markTemptationOutcome_def ex_db_def ex_contract_def newContract_def
        empty_user_def update_where_def Let_def)

text \<open>
  C9, amended.  Every record that \<^verbatim>\<open>coachTemptation\<close> adds has the outcome
  \<^verbatim>\<open>pending\<close>.  A call of \<^verbatim>\<open>markTemptationOutcome\<close> by an authenticated caller, with
  the outcome \<^verbatim>\<open>resisted\<close> or \<^verbatim>\<open>relapsed\<close>, for a record that exists and whose write
  succeeds, sets the outcome of the record to the given one and the time of resolution
  to now, whatever the outcome was before; it returns success when the outcome is
  \<^verbatim>\<open>relapsed\<close>, or when the contract exists and its update succeeds.  A call with any
  other outcome fails and changes nothing.
\<close>

theorem temptation_outcome:
  "(\<exists>ts. temptations (snd (coachTemptation now ai okSet okUpdate auth contractId context db)) =
           temptations db @ ts \<and>
         list_all (\<lambda>x. t_outcome x = ''pending'') ts) \<and>
   (outcome' \<in> set [''resisted'', ''relapsed''] \<and>
    list_ex (\<lambda>x. t_contractId x = i \<and> t_id x = t) (temptations db) \<longrightarrow>
      temptations (snd (markTemptationOutcome now True okContract (Some u) (Some i) (Some t) outcome' db)) =
        map (\<lambda>x. if t_contractId x = i \<and> t_id x = t
                  then x\<lparr>t_outcome := outcome', t_resolvedAt := Some now\<rparr> else x) (temptations db) \<and>
      (okContract \<and> i \<in> set (map cid (contracts db)) \<longrightarrow>
         fst (markTemptationOutcome now True okContract (Some u) (Some i) (Some t) outcome' db) = Inr ())) \<and>
   (outcome' \<notin> set [''resisted'', ''relapsed''] \<longrightarrow>
      isl (fst (markTemptationOutcome now okTemptation okContract auth ci ti outcome' db)) \<and>
      snd (markTemptationOutcome now okTemptation okContract auth ci ti outcome' db) = db)"
proof (intro conjI impI)
  show "\<exists>ts. temptations (snd (coachTemptation now ai okSet okUpdate auth contractId context db)) =
           temptations db @ ts \<and> list_all (\<lambda>x. t_outcome x = ''pending'') ts"
    by (auto simp: coachTemptation_def Let_def split: option.splits)
next
  assume a: "outcome' \<in> set [''resisted'', ''relapsed''] \<and>
    list_ex (\<lambda>x. t_contractId x = i \<and> t_id x = t) (temptations db)"
  then have ne: "outcome' \<noteq> []" by auto
  show "temptations (snd (markTemptationOutcome now True okContract (Some u) (Some i) (Some t) outcome' db)) =
        map (\<lambda>x. if t_contractId x = i \<and> t_id x = t
                  then x\<lparr>t_outcome := outcome', t_resolvedAt := Some now\<rparr> else x) (temptations db)"
    using a ne by (simp add: markTemptationOutcome_def Let_def)
  assume "okContract \<and> i \<in> set (map cid (contracts db))"
  then show "fst (markTemptationOutcome now True okContract (Some u) (Some i) (Some t) outcome' db) = Inr ()"
    using a ne by (simp add: markTemptationOutcome_def Let_def)
next
  assume "outcome' \<notin> set [''resisted'', ''relapsed'']"
  then show "isl (fst (markTemptationOutcome now okTemptation okContract auth ci ti outcome' db))"
    and "snd (markTemptationOutcome now okTemptation okContract auth ci ti outcome' db) = db"
    by (auto simp: markTemptationOutcome_def split: option.splits)
qed

text \<open>
  A record already marked \<^verbatim>\<open>resisted\<close> is marked \<^verbatim>\<open>relapsed\<close>, and the outcome
  \<^verbatim>\<open>maybe\<close> is refused.
\<close>

theorem temptation_outcome_witness:
  "''relapsed'' \<in> set [''resisted'', ''relapsed''] \<and>
   list_ex (\<lambda>x. t_contractId x = 1 \<and> t_id x = 1) (temptations ex_resisted_db) \<and>
   map t_outcome (temptations ex_resisted_db) = [''resisted''] \<and>
   map t_outcome (temptations
     (snd (markTemptationOutcome 300 True True (Some ''u'') (Some 1) (Some 1) ''relapsed'' ex_resisted_db))) =
     [''relapsed''] \<and>
   1 \<in> set (map cid (contracts ex_resisted_db)) \<and>
   fst (markTemptationOutcome 300 True True (Some ''u'') (Some 1) (Some 1) ''relapsed'' ex_resisted_db) = Inr () \<and>
   ''maybe'' \<notin> set [''resisted'', ''relapsed''] \<and>
   snd (markTemptationOutcome 300 True True (Some ''u'') (Some 1) (Some 1) ''maybe'' ex_resisted_db) =
     ex_resisted_db"
proof -
  have h1: "''relapsed'' \<in> set [''resisted'', ''relapsed''] \<and>
      list_ex (\<lambda>x. t_contractId x = 1 \<and> t_id x = 1) (temptations ex_resisted_db)"
    by (simp add: ex_resisted_db_eq)
  have h2: "True \<and> 1 \<in> set (map cid (contracts ex_resisted_db))"
    by (simp add: ex_resisted_db_eq ex_db_def ex_contract_def newContract_def)
  have h3: "''maybe'' \<notin> set [''resisted'', ''relapsed'']"
    by simp
  have o: "map t_outcome (temptations ex_resisted_db) = [''resisted'']"
    by (simp add: ex_resisted_db_eq)
  note t1 = temptation_outcome [where outcome' = "''relapsed''" and i = 1 and t = 1
      and db = ex_resisted_db and now = 300 and okContract = True and u = "''u''"]
  note t2 = temptation_outcome [where outcome' = "''maybe''" and db = ex_resisted_db and now = 300
      and okTemptation = True and okContract = True and auth = "Some ''u''" and ci = "Some 1"
      and ti = "Some 1"]
  from t1 h1 h2 have
    a: "temptations (snd (markTemptationOutcome 300 True True (Some ''u'') (Some 1) (Some 1) ''relapsed'' ex_resisted_db)) =
        map (\<lambda>x. if t_contractId x = 1 \<and> t_id x = 1
                  then x\<lparr>t_outcome := ''relapsed'', t_resolvedAt := Some 300\<rparr> else x) (temptations ex_resisted_db)"
    and b: "fst (markTemptationOutcome 300 True True (Some ''u'') (Some 1) (Some 1) ''relapsed'' ex_resisted_db) = Inr ()"
    by blast+
  from t2 h3 have
    c: "snd (markTemptationOutcome 300 True True (Some ''u'') (Some 1) (Some 1) ''maybe'' ex_resisted_db) = ex_resisted_db"
    by blast
  have a': "map t_outcome (temptations
     (snd (markTemptationOutcome 300 True True (Some ''u'') (Some 1) (Some 1) ''relapsed'' ex_resisted_db))) =
     [''relapsed'']"
    unfolding a by (simp add: ex_resisted_db_eq)
  show ?thesis
    using h1 h2 h3 o a' b c by blast
qed

section \<open>Weekly rollover\<close>










text \<open>
  C6.  The job is not idempotent.  For a user with one active weekly contract that met
  its goal (goal 3, completed count 3, streak 4), one run gives streak 5 and a fresh
  weekly progress; a second run at the same instant compares the fresh count 0 with the
  goal and gives streak 0, a state different from the one after a single run.  The
  update that the job writes does not depend on the stored week start: no date guards
  the transition.
\<close>

theorem weeklyRollover_not_idempotent:
  "weeklyRollover ex_clock ex_ok (ex_users (ex_weekly (Some 3) (Some (ex_progress 3)))) =
     ex_users ((ex_weekly (Some 3) (Some (ex_progress 3)))\<lparr>streak := Some 5,
        weeklyProgress := Some \<lparr>weekStart = Some 7, completedCount = Some 0, lastCheckInDate = None\<rparr>\<rparr>) \<and>
   weeklyRollover ex_clock ex_ok
     (weeklyRollover ex_clock ex_ok (ex_users (ex_weekly (Some 3) (Some (ex_progress 3))))) =
     ex_users ((ex_weekly (Some 3) (Some (ex_progress 3)))\<lparr>streak := Some 0,
        weeklyProgress := Some \<lparr>weekStart = Some 7, completedCount = Some 0, lastCheckInDate = None\<rparr>\<rparr>) \<and>
   weeklyRollover ex_clock ex_ok
     (weeklyRollover ex_clock ex_ok (ex_users (ex_weekly (Some 3) (Some (ex_progress 3))))) \<noteq>
     weeklyRollover ex_clock ex_ok (ex_users (ex_weekly (Some 3) (Some (ex_progress 3)))) \<and>
   rolloverUpdate d (c\<lparr>weeklyProgress := Some (w\<lparr>weekStart := x\<rparr>)\<rparr>) =
     rolloverUpdate d (c\<lparr>weeklyProgress := Some w\<rparr>)"
  by (simp add: ex_progress_def ex_weekly_def ex_users_def ex_notified_def handleEnableNotifications_def
      ex_clock_def ex_ok_def ex_contract_def
      newContract_def empty_user_def weeklyRollover_def weeklyRolloverUser_def isActiveWeekly_def
      rolloverUpdate_def rolloverGoal_def rolloverCompleted_def commit_def Let_def
      update_doc_def update_where_def apply_update_def no_update_def isoDate_def msPerDay_def)

section \<open>Daily auto-keep\<close>






lemma cid_autoKept [simp]: "cid (autoKept now c) = cid c"
  by (simp add: autoKept_def)

lemma isAutoKeepContract_autoKept [simp]:
  "isAutoKeepContract (autoKept now c) = isAutoKeepContract c"
  by (simp add: autoKept_def isAutoKeepContract_def)










section \<open>The invariant of the contract lifecycle\<close>

text \<open>
  A batch whose updates name neither the status nor the outcome nor the failure reason
  preserves these fields, and the identifier, of every contract; the check-in and the
  two scheduled jobs write such batches only.
\<close>

lemma apply_write_benign:
  "benign w \<Longrightarrow> map lifecycle (contracts (apply_write db w)) = map lifecycle (contracts db)"
  by (cases w) (auto simp: update_doc_def update_where_def apply_update_def lifecycle_def)

lemma foldl_benign:
  "list_all benign b \<Longrightarrow> map lifecycle (contracts (foldl apply_write db b)) = map lifecycle (contracts db)"
  by (induction b arbitrary: db) (simp_all add: apply_write_benign)

lemma commit_benign:
  "list_all benign b \<Longrightarrow> commit ok b db = Some db' \<Longrightarrow>
     map lifecycle (contracts db') = map lifecycle (contracts db)"
  by (auto simp: commit_def foldl_benign split: if_splits)

lemma weeklyRolloverUser_lifecycle:
  "map lifecycle (contracts (weeklyRolloverUser now ok db)) = map lifecycle (contracts db)"
proof -
  have "list_all benign (map (\<lambda>c. UpdateContract (cid c) (rolloverUpdate d c)) xs)" for d xs
    by (induction xs) (simp_all add: rolloverUpdate_def no_update_def Let_def)
  then show ?thesis
    by (auto simp: weeklyRolloverUser_def Let_def dest: commit_benign split: option.splits)
qed

lemma dailyAutoKeepUser_lifecycle:
  "map lifecycle (contracts (dailyAutoKeepUser y now ok db)) = map lifecycle (contracts db)"
proof -
  have "list_all benign (concat (map (autoKeepWrites y now ids) xs))" for ids xs
    by (induction xs) (simp_all add: autoKeepWrites_def no_update_def Let_def)
  then show ?thesis
    by (auto simp: dailyAutoKeepUser_def Let_def dest: commit_benign split: option.splits)
qed

lemma handleCheckIn_lifecycle:
  "handleCheckIn now ok user cs i st notes db = Some db' \<Longrightarrow>
     map lifecycle (contracts db') = map lifecycle (contracts db)"
proof -
  have "list_all benign (checkInBatch now c i st notes)" for c
    by (simp add: checkInBatch_def no_update_def Let_def)
  then show "handleCheckIn now ok user cs i st notes db = Some db' \<Longrightarrow>
     map lifecycle (contracts db') = map lifecycle (contracts db)"
    by (auto simp: handleCheckIn_def dest: commit_benign split: option.splits)
qed

lemma consistent_lifecycle:
  "map lifecycle cs' = map lifecycle cs \<Longrightarrow> list_all consistent cs' = list_all consistent cs"
proof -
  have "list_all consistent xs =
     list_all (\<lambda>(i, st, oc, fr). (oc \<noteq> None \<longleftrightarrow> st = Archived) \<and> (oc = Some Breached \<longleftrightarrow> fr \<noteq> None))
       (map lifecycle xs)" for xs
    by (simp add: lifecycle_def list.pred_map comp_def) (simp add: list_all_iff consistent_def)
  then show "map lifecycle cs' = map lifecycle cs \<Longrightarrow> list_all consistent cs' = list_all consistent cs"
    by simp
qed

lemma consistent_update_where:
  assumes "list_all consistent cs"
    and "\<And>c. c \<in> set cs \<Longrightarrow> cid c = i \<Longrightarrow> consistent c \<Longrightarrow> consistent (f c)"
  shows "list_all consistent (update_where i f cs)"
  using assms by (auto simp: update_where_def list_all_iff)

lemma consistent_fields:
  "consistent c \<Longrightarrow> status c \<noteq> Archived \<Longrightarrow> outcome c = None \<and> failureReason c = None"
  "consistent c \<Longrightarrow> outcome c \<noteq> Some Breached \<Longrightarrow> failureReason c = None"
  by (cases "outcome c"; auto simp: consistent_def)+

lemma consistent_violation:
  assumes cons: "list_all consistent (contracts db)"
    and ord: "in_order db (ReportViolation a vd)"
    and h: "handleViolation now ok user a vd db = Some d"
  shows "list_all consistent (contracts d)"
proof -
  from h obtain u a' where u: "user = Some u" and a: "a = Some a'"
    and c: "commit ok (violationBatch now a' vd) db = Some d"
    by (auto simp: handleViolation_def split: option.splits)
  from c have ok: "ok" and m: "cid a' \<in> cid ` set (contracts db)"
    by (auto simp: commit_def violationBatch_def Let_def split: if_splits)
  let ?f = "\<lambda>c. c\<lparr>streak := Some 0, lastCheckIn := Some now,
                 status := (case decision vd of Recommit \<Rightarrow> status c | Pause \<Rightarrow> Paused | Retire \<Rightarrow> Archived),
                 outcome := (if decision vd = Retire then Some Breached else outcome c),
                 failureReason := (if decision vd = Retire
                                   then Some (if story vd = [] then reason vd else story vd)
                                   else failureReason c),
                 archivedAt := (if decision vd = Retire then Some now else archivedAt c)\<rparr>"
  have d: "contracts d = update_where (cid a') ?f (contracts db)"
    using h handleViolation_commit [OF m, of now ok u vd] ok u a by auto
  have "consistent (?f c)" if "c \<in> set (contracts db)" "cid c = cid a'" "consistent c" for c
  proof (cases "decision vd")
    case Recommit
    with that(3) show ?thesis by (simp add: consistent_def)
  next
    case Pause
    with ord a that(1,2) have "status c \<noteq> Archived"
      by (auto simp: list_all_iff)
    with consistent_fields(1) [OF that(3)] Pause show ?thesis
      by (simp add: consistent_def)
  next
    case Retire
    then show ?thesis by (simp add: consistent_def)
  qed
  then show ?thesis
    unfolding d using cons by (intro consistent_update_where) auto
qed

lemma consistent_complete:
  assumes cons: "list_all consistent (contracts db)"
    and ord: "in_order db (Complete c)"
    and h: "handleCompleteContract now ok user c db = Some d"
  shows "list_all consistent (contracts d)"
proof -
  let ?g = "\<lambda>k. k\<lparr>status := Archived, outcome := Some Completed, archivedAt := Some now\<rparr>"
  have d: "contracts d = update_where (cid c) ?g (contracts db)"
    using handleCompleteContract_Some [OF h] by simp
  have "consistent (?g k)" if "k \<in> set (contracts db)" "cid k = cid c" "consistent k" for k
  proof -
    from ord that(1,2) have "outcome k \<noteq> Some Breached"
      by (auto simp: list_all_iff)
    with consistent_fields(2) [OF that(3)] show ?thesis
      by (simp add: consistent_def)
  qed
  then show ?thesis
    unfolding d using cons by (intro consistent_update_where) auto
qed

lemma consistent_create:
  assumes cons: "list_all consistent (contracts db)"
    and h: "handleCreateContract now ok user contractData db = Some d"
  shows "list_all consistent (contracts d)"
proof -
  from h have d: "contracts d = contracts db @ [newContract now (fresh_id (contracts db)) contractData]"
    by (auto simp: handleCreateContract_def split: option.splits if_splits)
  have "consistent (newContract now j contractData)" for j
    by (simp add: consistent_def newContract_def)
  then show ?thesis
    using cons by (simp add: d)
qed

text \<open>
  Every operation that is in order for a consistent store leaves it consistent.
\<close>

lemma consistent_apply_op:
  assumes cons: "list_all consistent (contracts db)" and ord: "in_order db op"
  shows "list_all consistent (contracts (apply_op now ok user db op))"
proof (cases op)
  case (Create contractData)
  then show ?thesis
    using cons by (auto split: option.splits intro: consistent_create)
next
  case (CheckIn cs i st nts)
  then show ?thesis
    using cons by (auto split: option.splits dest!: handleCheckIn_lifecycle consistent_lifecycle)
next
  case (ReportViolation a vd)
  then show ?thesis
    using cons ord by (auto split: option.splits intro: consistent_violation)
next
  case (Complete c)
  then show ?thesis
    using cons ord by (auto split: option.splits intro: consistent_complete)
next
  case WeeklyRolloverTurn
  then show ?thesis
    using cons consistent_lifecycle [OF weeklyRolloverUser_lifecycle, of now ok db] by simp
next
  case DailyAutoKeepTurn
  then show ?thesis
    using cons consistent_lifecycle [OF dailyAutoKeepUser_lifecycle, of "isoDate now - 1" now ok db]
    by simp
qed

lemma consistent_run_ops:
  "list_all consistent (contracts db) \<Longrightarrow> all_in_order user db es \<Longrightarrow>
     list_all consistent (contracts (run_ops user db es))"
  by (induction user db es rule: run_ops.induct) (simp_all add: consistent_apply_op)

text \<open>
  C7, as stated, fails.  \<^verbatim>\<open>handleViolation\<close> reads no status: a contract is drafted, a
  violation is reported with the decision to retire, and a second report with the
  decision to pause follows.  The contract ends paused with the outcome \<open>Breached\<close>: the
  outcome is set and the status is not \<open>Archived\<close>.  One client does this by itself,
  when the open violation form is submitted a second time before the first commit has
  resolved.  \<^verbatim>\<open>handleCompleteContract\<close> reads no outcome either: a completion written to
  the retired contract, from a card that still shows it, leaves the outcome
  \<open>Completed\<close> with the failure reason set.
\<close>

theorem lifecycle_invariant_broken:
  "contracts (run_ops (Some ''u'') empty_user ex_double_submit_ops) = [ex_paused_breached] \<and>
   contracts (app_db (run (init_state ''u'' 3) ex_double_submit)) = [ex_paused_breached] \<and>
   status ex_paused_breached = Paused \<and> outcome ex_paused_breached = Some Breached \<and>
   contracts (run_ops (Some ''u'') empty_user ex_complete_breached_ops) = [ex_completed_breached] \<and>
   outcome ex_completed_breached = Some Completed \<and>
   failureReason ex_completed_breached = Some ''ate cake''"
  by (simp add: ex_double_submit_ops_def ex_double_submit_def ex_complete_breached_ops_def
      ex_paused_breached_def ex_completed_breached_def ex_new_def ex_retire_def ex_pause_def
      init_state_def empty_user_def
      handleCreateContract_def fresh_id_def offered_def todayLogOf_def
      ContractCard_def isFuture_def isExpired_def getDaysRemaining_def
      newContract_def ex_data_def isoDate_def msPerDay_def
      handleViolation_def violationBatch_def violationUpdates_def
      handleCompleteContract_def commit_def Let_def
      update_doc_def update_where_def apply_update_def no_update_def js_or_str_def)

text \<open>
  C7, amended.  Start from any store in which every contract is consistent (the empty
  store is one), and let any sequence of lifecycle operations run: creations, check-ins,
  reports of violations with any decision, completions, and turns of the weekly rollover
  and of the daily auto-keep, each with any arguments of the calling client, at any time
  and with a commit that succeeds or fails.  If no violation with the decision to pause
  meets an archived contract, and no completion meets a breached contract, then for
  every contract of the store the outcome is set if and only if the status is
  \<open>Archived\<close>, and the outcome is \<open>Breached\<close> if and only if the failure reason is set.
\<close>

theorem lifecycle_invariant:
  assumes "list_all consistent (contracts db)" and "all_in_order user db es"
    and "c \<in> set (contracts (run_ops user db es))"
  shows "(outcome c \<noteq> None \<longleftrightarrow> status c = Archived) \<and>
         (outcome c = Some Breached \<longleftrightarrow> failureReason c \<noteq> None)"
proof -
  from consistent_run_ops [OF assms(1,2)] assms(3) have "consistent c"
    by (simp add: list_all_iff)
  then show ?thesis
    by (simp add: consistent_def)
qed

lemma ex_guarded_run:
  "contracts (run_ops (Some ''u'') empty_user ex_guarded_ops) = [ex_paused, ex_completed]"
  by (simp add: ex_guarded_ops_def ex_paused_def ex_completed_def ex_new_def ex_new2_def
      ex_pause_def empty_user_def
      handleCreateContract_def fresh_id_def newContract_def ex_data_def isoDate_def msPerDay_def
      handleViolation_def violationBatch_def violationUpdates_def
      handleCompleteContract_def commit_def Let_def
      update_doc_def update_where_def apply_update_def no_update_def js_or_str_def)

text \<open>
  Two contracts are drafted; the first is paused after a violation, the second is
  completed.  Both operations meet an active contract, and both contracts end consistent.
\<close>

theorem lifecycle_invariant_witness:
  "list_all consistent (contracts empty_user) \<and>
   all_in_order (Some ''u'') empty_user ex_guarded_ops \<and>
   ex_paused \<in> set (contracts (run_ops (Some ''u'') empty_user ex_guarded_ops)) \<and>
   ex_completed \<in> set (contracts (run_ops (Some ''u'') empty_user ex_guarded_ops)) \<and>
   status ex_paused = Paused \<and> outcome ex_paused = None \<and> failureReason ex_paused = None \<and>
   status ex_completed = Archived \<and> outcome ex_completed = Some Completed \<and>
   failureReason ex_completed = None \<and>
   (outcome ex_paused \<noteq> None \<longleftrightarrow> status ex_paused = Archived) \<and>
   (outcome ex_paused = Some Breached \<longleftrightarrow> failureReason ex_paused \<noteq> None) \<and>
   (outcome ex_completed \<noteq> None \<longleftrightarrow> status ex_completed = Archived) \<and>
   (outcome ex_completed = Some Breached \<longleftrightarrow> failureReason ex_completed \<noteq> None)"
proof -
  have h1: "list_all consistent (contracts empty_user)"
    by (simp add: empty_user_def)
  have h2: "all_in_order (Some ''u'') empty_user ex_guarded_ops"
    by (simp add: ex_guarded_ops_def ex_new_def ex_new2_def ex_pause_def empty_user_def
        handleCreateContract_def fresh_id_def newContract_def ex_data_def isoDate_def msPerDay_def
        handleViolation_def violationBatch_def violationUpdates_def commit_def Let_def
        update_doc_def update_where_def apply_update_def no_update_def)
  have h3: "ex_paused \<in> set (contracts (run_ops (Some ''u'') empty_user ex_guarded_ops))"
    and h4: "ex_completed \<in> set (contracts (run_ops (Some ''u'') empty_user ex_guarded_ops))"
    by (simp_all add: ex_guarded_run)
  have v: "status ex_paused = Paused \<and> outcome ex_paused = None \<and> failureReason ex_paused = None \<and>
      status ex_completed = Archived \<and> outcome ex_completed = Some Completed \<and>
      failureReason ex_completed = None"
    by (simp add: ex_paused_def ex_completed_def ex_new_def ex_new2_def newContract_def)
  show ?thesis
    using h1 h2 h3 h4 v lifecycle_invariant [OF h1 h2 h3] lifecycle_invariant [OF h1 h2 h4]
    by blast
qed

end
